theory Spec2Isabelle
  imports Main
begin

section \<open>The fretboard model and form synthesis of \<^verbatim>\<open>cagedfinder/guitar.py\<close>\<close>

text \<open>
  The classes \<^verbatim>\<open>String\<close>, \<^verbatim>\<open>Note\<close>, \<^verbatim>\<open>Lick\<close> and \<^verbatim>\<open>Form\<close> of
  \<^verbatim>\<open>guitar.py\<close> are embedded as records and total functions. Every Python exception is a
  value of \<open>error\<close>; a function that can raise returns \<open>error + 'a\<close> with \<open>Inl\<close> for the
  exception. Python integers are \<open>int\<close>.
\<close>

subsection \<open>Exceptions\<close>

datatype error =
    ValueError
  | IndexError
  | KeyError
  | StopIteration
  | RuntimeError
  | AttributeError
  | NoteFormatError
  | RangeError

subsection \<open>Python built-ins used by the source\<close>

text \<open>\<^verbatim>\<open>str(n)\<close> for an integer: decimal digits, with a leading minus sign when negative.\<close>

definition digit_char :: "nat \<Rightarrow> char" where
  "digit_char d = ''0123456789'' ! d"

function str_nat :: "nat \<Rightarrow> string" where
  "str_nat n = (if n < 10 then [digit_char n] else str_nat (n div 10) @ [digit_char (n mod 10)])"
  by pat_completeness auto
termination
  by (relation "measure id") auto

declare str_nat.simps [simp del]

definition str :: "int \<Rightarrow> string" where
  "str i = (if i < 0 then CHR ''-'' # str_nat (nat (- i)) else str_nat (nat i))"

text \<open>
  \<^verbatim>\<open>xs[i]\<close> on a tuple or list of length \<open>n\<close>: the indices from \<open>-n\<close> to \<open>-1\<close>
  read the positions \<open>n + i\<close>; any index outside \<open>-n\<close> to \<open>n - 1\<close> raises
  \<^verbatim>\<open>IndexError\<close>.
\<close>

definition getitem :: "'a list \<Rightarrow> int \<Rightarrow> error + 'a" where
  "getitem xs i =
     (if 0 \<le> i \<and> i < int (length xs) then Inr (xs ! nat i)
      else if i < 0 \<and> - int (length xs) \<le> i then Inr (xs ! nat (int (length xs) + i))
      else Inl IndexError)"

text \<open>\<^verbatim>\<open>next(x for x in xs if p(x))\<close>: the first match, or \<^verbatim>\<open>StopIteration\<close>.\<close>

definition next_match :: "('a \<Rightarrow> bool) \<Rightarrow> 'a list \<Rightarrow> error + 'a" where
  "next_match p xs = (case List.find p xs of None \<Rightarrow> Inl StopIteration | Some x \<Rightarrow> Inr x)"

text \<open>
  \<^verbatim>\<open>any(p(x) for x in xs)\<close> where \<open>p\<close> may raise: the scan stops at the first true
  element, and an exception raised before that propagates.
\<close>

fun any_raising :: "('a \<Rightarrow> error + bool) \<Rightarrow> 'a list \<Rightarrow> error + bool" where
  "any_raising p [] = Inr False"
| "any_raising p (x # xs) =
     (case p x of Inl e \<Rightarrow> Inl e | Inr b \<Rightarrow> if b then Inr True else any_raising p xs)"

text \<open>\<^verbatim>\<open>tuple(x for x in xs if p(x))\<close> where \<open>p\<close> may raise.\<close>

fun filter_raising :: "('a \<Rightarrow> error + bool) \<Rightarrow> 'a list \<Rightarrow> error + 'a list" where
  "filter_raising p [] = Inr []"
| "filter_raising p (x # xs) =
     (case p x of Inl e \<Rightarrow> Inl e
      | Inr b \<Rightarrow> (case filter_raising p xs of Inl e \<Rightarrow> Inl e
                 | Inr ys \<Rightarrow> Inr (if b then x # ys else ys)))"

text \<open>\<^verbatim>\<open>tuple(f(x) for x in xs)\<close> where \<open>f\<close> may raise.\<close>

fun map_raising :: "('a \<Rightarrow> error + 'b) \<Rightarrow> 'a list \<Rightarrow> error + 'b list" where
  "map_raising f [] = Inr []"
| "map_raising f (x # xs) =
     (case f x of Inl e \<Rightarrow> Inl e
      | Inr y \<Rightarrow> (case map_raising f xs of Inl e \<Rightarrow> Inl e | Inr ys \<Rightarrow> Inr (y # ys)))"

text \<open>\<^verbatim>\<open>min(xs, key=k)\<close>: the first element with the least key; \<^verbatim>\<open>ValueError\<close> on an
  empty sequence.\<close>

fun min_by :: "('a \<Rightarrow> int) \<Rightarrow> 'a list \<Rightarrow> error + 'a" where
  "min_by k [] = Inl ValueError"
| "min_by k (x # xs) = Inr (foldl (\<lambda>best y. if k y < k best then y else best) x xs)"

subsection \<open>The note functions of the \<^verbatim>\<open>mingus.core.notes\<close> library\<close>

text \<open>
  \<^verbatim>\<open>mingus\<close> is an external library. Its four functions that \<^verbatim>\<open>guitar.py\<close> calls are
  modelled after the library: a note name is a letter \<^verbatim>\<open>A\<close> to \<^verbatim>\<open>G\<close> followed by any
  number of \<^verbatim>\<open>#\<close> and \<^verbatim>\<open>b\<close>; \<^verbatim>\<open>note_to_int\<close> gives its pitch class, 0 to 11;
  \<^verbatim>\<open>int_to_note\<close> names a pitch class with sharps; two names are enharmonic when their
  pitch classes are equal. \<^verbatim>\<open>is_valid_note\<close> reads \<^verbatim>\<open>note[0]\<close> first, so the empty
  name raises \<^verbatim>\<open>IndexError\<close>.
\<close>

definition note_dict :: "char \<Rightarrow> int option" where
  "note_dict c =
     (if c = CHR ''C'' then Some 0 else if c = CHR ''D'' then Some 2
      else if c = CHR ''E'' then Some 4 else if c = CHR ''F'' then Some 5
      else if c = CHR ''G'' then Some 7 else if c = CHR ''A'' then Some 9
      else if c = CHR ''B'' then Some 11 else None)"

fun is_valid_note :: "string \<Rightarrow> error + bool" where
  "is_valid_note [] = Inl IndexError"
| "is_valid_note (c # post) =
     Inr (note_dict c \<noteq> None \<and> list_all (\<lambda>p. p = CHR ''b'' \<or> p = CHR ''#'') post)"

definition accidentals :: "string \<Rightarrow> int" where
  "accidentals post =
     foldl (\<lambda>val p. if p = CHR ''b'' then val - 1 else if p = CHR ''#'' then val + 1 else val)
       0 post"

definition note_to_int :: "string \<Rightarrow> error + int" where
  "note_to_int note =
     (case is_valid_note note of
        Inl e \<Rightarrow> Inl e
      | Inr ok \<Rightarrow>
          if ok then Inr ((the (note_dict (hd note)) + accidentals (tl note)) mod 12)
          else Inl NoteFormatError)"

definition int_to_note :: "int \<Rightarrow> error + string" where
  "int_to_note note_int =
     (if 0 \<le> note_int \<and> note_int < 12
      then Inr ([''C'', ''C#'', ''D'', ''D#'', ''E'', ''F'', ''F#'', ''G'', ''G#'', ''A'', ''A#'',
                 ''B''] ! nat note_int)
      else Inl RangeError)"

definition is_enharmonic :: "string \<Rightarrow> string \<Rightarrow> error + bool" where
  "is_enharmonic note1 note2 =
     (case note_to_int note1 of
        Inl e \<Rightarrow> Inl e
      | Inr a \<Rightarrow> (case note_to_int note2 of Inl e \<Rightarrow> Inl e | Inr b \<Rightarrow> Inr (a = b)))"

subsection \<open>\<^verbatim>\<open>class Note\<close>\<close>

text \<open>
  The performance effect is opaque to this module; it is modelled as an optional text.
  A variable that would carry the name of a record field is written with a prime.
\<close>

record Note =
  string :: int
  fret :: int
  name :: string
  effect :: "string option"

definition Note_init :: "int \<Rightarrow> int \<Rightarrow> string \<Rightarrow> string option \<Rightarrow> Note" where
  "Note_init string' fret' name' effect' =
     \<lparr>string = string', fret = fret', name = name', effect = effect'\<rparr>"

text \<open>
  \<^verbatim>\<open>__hash__\<close> returns \<^verbatim>\<open>hash(str(self.string) + str(self.fret) + self.name)\<close> and
  \<^verbatim>\<open>__eq__\<close> compares the two hashes. Python's hash of a text is modelled as injective:
  \<open>Note_hash\<close> is the hashed text itself, so that two notes are equal exactly when their
  hashed texts are.
\<close>

definition Note_hash :: "Note \<Rightarrow> string" where
  "Note_hash self = str (string self) @ str (fret self) @ name self"

definition Note_eq :: "Note \<Rightarrow> Note \<Rightarrow> bool" where
  "Note_eq self other = (Note_hash self = Note_hash other)"

definition Note_lt :: "Note \<Rightarrow> Note \<Rightarrow> bool" where
  "Note_lt self other =
     (string self > string other \<or> (string self = string other \<and> fret self < fret other))"

definition Note_is_enharmonic :: "Note \<Rightarrow> string \<Rightarrow> error + bool" where
  "Note_is_enharmonic self note = is_enharmonic (name self) note"

definition get_octave :: "Note \<Rightarrow> Note" where
  "get_octave self =
     (let fret' = (if fret self \<ge> 12 then fret self - 12 else fret self + 12)
      in Note_init (string self) fret' (name self) None)"

subsection \<open>\<^verbatim>\<open>class String\<close>\<close>

record String =
  index :: int
  tuning :: string
  "notes" :: "Note list"

definition FRETS :: nat where
  "FRETS = 23"

definition get_note_name :: "string \<Rightarrow> int \<Rightarrow> error + string" where
  "get_note_name tuning' fret' =
     (case note_to_int tuning' of
        Inl e \<Rightarrow> Inl e
      | Inr string_value \<Rightarrow> int_to_note ((string_value + fret') mod 12))"

definition String_init :: "int \<Rightarrow> string \<Rightarrow> error + String" where
  "String_init index' tuning' =
     (case is_valid_note tuning' of
        Inl e \<Rightarrow> Inl e
      | Inr ok \<Rightarrow>
          if \<not> ok then Inl ValueError
          else (case map_raising
                       (\<lambda>fret'. case get_note_name tuning' fret' of
                                 Inl e \<Rightarrow> Inl e
                               | Inr n \<Rightarrow> Inr (Note_init index' fret' n None))
                       (map int [0..<FRETS]) of
                  Inl e \<Rightarrow> Inl e
                | Inr ns \<Rightarrow> Inr \<lparr>index = index', tuning = tuning', notes = ns\<rparr>))"

text \<open>
  \<^verbatim>\<open>__getitem__\<close> dispatches on the type of its argument: an integer reads the name of
  the note at that index of the tuple of notes, anything else (a note name) collects the
  notes enharmonic to it. The two branches are two functions here.
\<close>

definition String_getitem_int :: "String \<Rightarrow> int \<Rightarrow> error + string" where
  "String_getitem_int self item =
     (case getitem (String.notes self) item of Inl e \<Rightarrow> Inl e | Inr note \<Rightarrow> Inr (name note))"

definition String_getitem :: "String \<Rightarrow> string \<Rightarrow> error + Note list" where
  "String_getitem self item =
     filter_raising (\<lambda>note. Note_is_enharmonic note item) (String.notes self)"

definition get_notes :: "String \<Rightarrow> string list \<Rightarrow> error + Note list" where
  "get_notes self note_list =
     filter_raising (\<lambda>n1. any_raising (\<lambda>n2. Note_is_enharmonic n1 n2) note_list)
       (String.notes self)"

subsection \<open>\<^verbatim>\<open>class Lick\<close> and \<^verbatim>\<open>class Form\<close>\<close>

record Lick =
  "notes" :: "Note list"
  start :: "int option"
  "end" :: "int option"

record Form = Lick +
  key :: "string option"
  scale :: "string option"
  forms :: string

text \<open>
  \<^verbatim>\<open>Lick.__init__\<close> stores \<^verbatim>\<open>tuple(notes_list)\<close>. With \<^verbatim>\<open>transpose\<close> set,
  \<^verbatim>\<open>Form.__init__\<close> then evaluates \<^verbatim>\<open>self.notes.extend(...)\<close>: a tuple has no
  attribute \<^verbatim>\<open>extend\<close>, so the attribute lookup raises \<^verbatim>\<open>AttributeError\<close> before
  any octave is computed, whatever the notes are.
\<close>

definition Form_init ::
  "Note list \<Rightarrow> string option \<Rightarrow> string option \<Rightarrow> string \<Rightarrow> bool \<Rightarrow> error + Form" where
  "Form_init notes_list key' scale' forms' transpose' =
     (let self = \<lparr>notes = notes_list, start = None, end = None,
                   key = key', scale = scale', forms = forms'\<rparr>
      in if transpose' then Inl AttributeError else Inr self)"

text \<open>Truth value of an optional text: \<^verbatim>\<open>None\<close> and the empty text are false.\<close>

definition truthy :: "string option \<Rightarrow> bool" where
  "truthy s = (case s of None \<Rightarrow> False | Some t \<Rightarrow> t \<noteq> [])"

text \<open>
  \<^verbatim>\<open>sorted(set(xs) | set(ys))\<close>. The set keeps one note of each class of \<open>Note_eq\<close>;
  \<^verbatim>\<open>sorted\<close> is stable and compares with \<^verbatim>\<open>__lt__\<close> only. The order in which
  Python iterates over a set depends on the hash values; the model takes the order of first
  occurrence, which matters only between notes that \<open>Note_lt\<close> does not separate.
\<close>

definition set_of_notes :: "Note list \<Rightarrow> Note list" where
  "set_of_notes xs = foldl (\<lambda>acc x. if list_ex (Note_eq x) acc then acc else acc @ [x]) [] xs"

definition union_notes :: "Note list \<Rightarrow> Note list \<Rightarrow> Note list" where
  "union_notes xs ys = set_of_notes (set_of_notes xs @ set_of_notes ys)"

fun insort_note :: "Note \<Rightarrow> Note list \<Rightarrow> Note list" where
  "insort_note x [] = [x]"
| "insort_note x (y # ys) = (if Note_lt y x then y # insort_note x ys else x # y # ys)"

definition sorted_notes :: "Note list \<Rightarrow> Note list" where
  "sorted_notes xs = foldr insort_note xs []"

definition Form_add :: "Form \<Rightarrow> Form \<Rightarrow> error + Form" where
  "Form_add self other =
     (let note_list = sorted_notes (union_notes (Lick.notes self) (Lick.notes other))
      in if key self = key other
         then (let scale' = (if scale self = scale other then scale self else None);
                   forms' = (if truthy (scale self) then forms self @ forms other else [])
               in Form_init note_list (key self) scale' forms' False)
         else Form_init note_list None None [] False)"

text \<open>\<^verbatim>\<open>issubset\<close> on two sets of notes, by \<open>Note_eq\<close>.\<close>

definition issubset :: "Note list \<Rightarrow> Note list \<Rightarrow> bool" where
  "issubset xs ys = list_all (\<lambda>x. list_ex (Note_eq x) ys) xs"

definition contains :: "Form \<Rightarrow> Form \<Rightarrow> bool" where
  "contains self lick = issubset (Lick.notes lick) (Lick.notes self)"

subsection \<open>The scale provider\<close>

text \<open>
  The \<^verbatim>\<open>scale\<close> argument of \<^verbatim>\<open>calculate_form\<close> is a class of the external library
  \<^verbatim>\<open>mingus.core.scales\<close>: the source reads its \<^verbatim>\<open>__name__\<close> and calls
  \<^verbatim>\<open>scale(key).ascending()\<close>, which returns the note names of one octave, tonic to
  tonic, or raises. It is a parameter of the model.
\<close>

record scale_class =
  class_name :: string
  ascending :: "string \<Rightarrow> error + string list"

text \<open>
  The Locrian mode of the library, given by its pitch classes: semitone steps
  1 2 2 1 2 2 2 from the tonic. The library spells the notes relative to the tonic (G, Ab,
  Bb, C, Db, Eb, F, G for the tonic G) where this model spells them with sharps;
  \<^verbatim>\<open>calculate_form\<close> reads the scale's notes only through \<^verbatim>\<open>is_enharmonic\<close>, which
  compares pitch classes.
\<close>

definition Locrian :: scale_class where
  "Locrian =
     \<lparr>class_name = ''Locrian'',
      ascending = (\<lambda>tonic. case note_to_int tonic of
                     Inl e \<Rightarrow> Inl e
                   | Inr t \<Rightarrow> map_raising (\<lambda>step. int_to_note ((t + step) mod 12))
                              [0, 1, 3, 5, 6, 8, 10, 12])\<rparr>"

subsection \<open>\<^verbatim>\<open>Form.calculate_form\<close>\<close>

definition enumerate_from :: "int \<Rightarrow> 'a list \<Rightarrow> (int \<times> 'a) list" where
  "enumerate_from start' xs = zip (map (\<lambda>k. start' + int k) [0..<length xs]) xs"

text \<open>\<^verbatim>\<open>strings = tuple(String(i, note) for i, note in enumerate('EBGDAE', start=1))\<close>\<close>

definition strings :: "error + String list" where
  "strings = map_raising (\<lambda>(i, note). String_init i [note]) (enumerate_from 1 ''EBGDAE'')"

text \<open>
  The table \<^verbatim>\<open>root_forms\<close>, built from the tuple of strings. The literal indices are
  in range of the six strings.
\<close>

definition root_forms :: "String list \<Rightarrow> (string \<times> String list) list" where
  "root_forms strings' =
     [(''C'', [strings' ! 1, strings' ! 4]),
      (''A'', [strings' ! 4, strings' ! 2]),
      (''G'', [strings' ! 2, strings' ! 0, strings' ! 5]),
      (''E'', [strings' ! 0, strings' ! 5, strings' ! 3]),
      (''D'', [strings' ! 3, strings' ! 1])]"

text \<open>
  Lines 216 to 218: the root on the first anchor string at or above \<open>form_start\<close>, then
  on every further anchor string the first root at or above the first root's fret. The
  further roots are computed inside a generator expression, where an exhausted
  \<^verbatim>\<open>next\<close> surfaces as \<^verbatim>\<open>RuntimeError\<close> (a \<^verbatim>\<open>StopIteration\<close> raised inside a
  generator is replaced by it).
\<close>

definition in_generator :: "error \<Rightarrow> error" where
  "in_generator e = (if e = StopIteration then RuntimeError else e)"

definition further_root :: "string \<Rightarrow> Note \<Rightarrow> String \<Rightarrow> error + Note" where
  "further_root key' root string' =
     (case String_getitem string' key' of
        Inl e \<Rightarrow> Inl (in_generator e)
      | Inr same \<Rightarrow>
          (case next_match (\<lambda>note. fret note \<ge> fret root) same of
             Inl e \<Rightarrow> Inl (in_generator e)
           | Inr note \<Rightarrow> Inr note))"

definition find_roots :: "String list \<Rightarrow> string \<Rightarrow> string \<Rightarrow> int \<Rightarrow> error + Note list" where
  "find_roots strings' key' form form_start =
     (case map_of (root_forms strings') form of
        None \<Rightarrow> Inl KeyError
      | Some [] \<Rightarrow> Inl IndexError
      | Some (anchor # anchors) \<Rightarrow>
          (case String_getitem anchor key' of
             Inl e \<Rightarrow> Inl e
           | Inr same \<Rightarrow>
               (case next_match (\<lambda>note. fret note \<ge> form_start) same of
                  Inl e \<Rightarrow> Inl e
                | Inr root \<Rightarrow>
                    (case map_raising (further_root key' root) anchors of
                       Inl e \<Rightarrow> Inl e
                     | Inr others \<Rightarrow> Inr (root # others)))))"

text \<open>
  Lines 238 to 250, the scan of one string: \<open>notes'\<close> are the scale notes of the string
  still to visit. A note at or below \<open>start'\<close> is skipped; a note more than three frets
  above it is replaced by the note of the same name on the next higher string that is closest
  to \<open>start'\<close>, which becomes the new \<open>start'\<close> and ends the scan; any other note is taken.
\<close>

fun scan_string ::
  "String list \<Rightarrow> int \<Rightarrow> int \<Rightarrow> Note list \<Rightarrow> Note list \<Rightarrow> error + Note list \<times> int" where
  "scan_string strings' i start' [] notes_list = Inr (notes_list, start')"
| "scan_string strings' i start' (note # notes') notes_list =
     (if fret note \<le> start' then scan_string strings' i start' notes' notes_list
      else (case getitem strings' (i - 2) of
              Inl e \<Rightarrow> Inl e
            | Inr higher \<Rightarrow>
                (case get_notes higher [name note] of
                   Inl e \<Rightarrow> Inl e
                 | Inr same \<Rightarrow>
                     (case min_by (\<lambda>note. \<bar>start' - fret note\<bar>) same of
                        Inl e \<Rightarrow> Inl e
                      | Inr higher_string_note \<Rightarrow>
                          if fret note - start' > 3
                          then Inr (notes_list @ [higher_string_note], fret higher_string_note)
                          else scan_string strings' i start' notes' (notes_list @ [note])))))"

text \<open>
  Lines 226 to 237, the branch of string 1. \<^verbatim>\<open>notes_list[0]\<close> and \<^verbatim>\<open>pop\<close> raise
  \<^verbatim>\<open>IndexError\<close> on an empty list.
\<close>

fun pop_below :: "int \<Rightarrow> Note list \<Rightarrow> error + Note list" where
  "pop_below start' [] = Inl IndexError"
| "pop_below start' (note # notes_list) =
     (if fret note < start' then pop_below start' notes_list else Inr (note # notes_list))"

definition copy_to_high_e :: "String list \<Rightarrow> Note list \<Rightarrow> error + Note list" where
  "copy_to_high_e strings' notes_list =
     (case getitem strings' 0 of
        Inl e \<Rightarrow> Inl e
      | Inr high \<Rightarrow>
          (case map_raising (\<lambda>note. getitem (String.notes high) (fret note))
                  (filter (\<lambda>note. string note = 6) notes_list) of
             Inl e \<Rightarrow> Inl e
           | Inr copies \<Rightarrow> Inr (notes_list @ copies)))"

definition mirror_low_e :: "String list \<Rightarrow> int \<Rightarrow> Note list \<Rightarrow> error + Note list" where
  "mirror_low_e strings' start' notes_list =
     (case pop_below start' notes_list of
        Inl e \<Rightarrow> Inl e
      | Inr kept \<Rightarrow>
          (case rev kept of
             [] \<Rightarrow> Inl IndexError
           | removed # rest \<Rightarrow>
               (case rev rest of
                  [] \<Rightarrow> Inl IndexError
                | first # others \<Rightarrow>
                    if fret first \<noteq> fret removed
                    then (case getitem strings' 5 of
                            Inl e \<Rightarrow> Inl e
                          | Inr low \<Rightarrow>
                              (case getitem (String.notes low) (fret removed) of
                                 Inl e \<Rightarrow> Inl e
                               | Inr missing \<Rightarrow>
                                   copy_to_high_e strings' (missing # first # others)))
                    else copy_to_high_e strings' (first # others))))"

text \<open>
  Lines 224 to 250, the loop over \<^verbatim>\<open>reversed(strings)\<close>: \<open>rest\<close> are the strings still
  to visit. String 1 runs the mirror branch and leaves the loop.
\<close>

fun walk ::
  "String list \<Rightarrow> string list \<Rightarrow> String list \<Rightarrow> Note list \<Rightarrow> int \<Rightarrow> error + Note list" where
  "walk strings' scale_notes [] notes_list start' = Inr notes_list"
| "walk strings' scale_notes (string' # rest) notes_list start' =
     (if index string' = 1 then mirror_low_e strings' start' notes_list
      else (case get_notes string' scale_notes of
              Inl e \<Rightarrow> Inl e
            | Inr notes' \<Rightarrow>
                (case scan_string strings' (index string') start' notes' notes_list of
                   Inl e \<Rightarrow> Inl e
                 | Inr (notes_list', start'') \<Rightarrow>
                     walk strings' scale_notes rest notes_list' start'')))"

text \<open>
  One pass through lines 207 to 250 for a given \<open>form_start\<close>: the roots and the notes
  collected by the walk.
\<close>

definition attempt ::
  "string \<Rightarrow> scale_class \<Rightarrow> string \<Rightarrow> int \<Rightarrow> error + Note list \<times> Note list" where
  "attempt key' scale' form form_start =
     (case strings of
        Inl e \<Rightarrow> Inl e
      | Inr strings' \<Rightarrow>
     (case find_roots strings' key' form form_start of
        Inl e \<Rightarrow> Inl e
      | Inr roots \<Rightarrow>
     (case ascending scale' key' of
        Inl e \<Rightarrow> Inl e
      | Inr scale_notes \<Rightarrow>
     (case getitem strings' 5 of
        Inl e \<Rightarrow> Inl e
      | Inr low \<Rightarrow>
     (case get_notes low scale_notes of
        Inl e \<Rightarrow> Inl e
      | Inr candidates \<Rightarrow>
     (case next_match (\<lambda>note. fret note \<ge> form_start) candidates of
        Inl e \<Rightarrow> Inl e
      | Inr first \<Rightarrow>
     (case walk strings' scale_notes (rev strings') [first] (fret first) of
        Inl e \<Rightarrow> Inl e
      | Inr notes_list \<Rightarrow> Inr (roots, notes_list))))))))"

text \<open>
  Every note of a string sits at a fret from 0 to 22, so an attempt can only complete when
  \<open>form_start\<close> is at most 22: the first scale note at or above it is one of those notes.
  This bounds the retries of \<^verbatim>\<open>calculate_form\<close>.
\<close>

lemma map_raising_mem:
  "map_raising f xs = Inr ys \<Longrightarrow> y \<in> set ys \<Longrightarrow> \<exists>x \<in> set xs. f x = Inr y"
  by (induction xs arbitrary: ys) (auto split: sum.splits)

lemma filter_raising_subset: "filter_raising p xs = Inr ys \<Longrightarrow> set ys \<subseteq> set xs"
  by (induction xs arbitrary: ys) (auto split: sum.splits if_splits)

lemma next_match_Inr: "next_match p xs = Inr x \<Longrightarrow> x \<in> set xs \<and> p x"
  by (auto simp: next_match_def find_Some_iff split: option.splits)

lemma getitem_mem: "getitem xs i = Inr x \<Longrightarrow> x \<in> set xs"
  by (auto simp: getitem_def split: if_splits)

lemma String_init_frets:
  assumes "String_init i t = Inr s" and "n \<in> set (String.notes s)"
  shows "0 \<le> fret n \<and> fret n < 23"
proof -
  from assms(1) obtain ns where
    ns: "map_raising (\<lambda>fret'. case get_note_name t fret' of Inl e \<Rightarrow> Inl e
            | Inr n \<Rightarrow> Inr (Note_init i fret' n None)) (map int [0..<FRETS]) = Inr ns"
    and s: "s = \<lparr>index = i, tuning = t, notes = ns\<rparr>"
    by (auto simp: String_init_def split: sum.splits if_splits)
  from assms(2) s have "n \<in> set ns" by simp
  from map_raising_mem [OF ns this] obtain f where
    "f \<in> set (map int [0..<FRETS])" and
    "(case get_note_name t f of Inl e \<Rightarrow> Inl e | Inr n \<Rightarrow> Inr (Note_init i f n None)) = Inr n"
    by blast
  then show ?thesis
    by (auto simp: FRETS_def Note_init_def split: sum.splits)
qed

lemma strings_frets:
  assumes "strings = Inr ss" and "s \<in> set ss" and "n \<in> set (String.notes s)"
  shows "0 \<le> fret n \<and> fret n < 23"
proof -
  from map_raising_mem [OF assms(1) [unfolded strings_def] assms(2)]
  obtain i c where "String_init i [c] = Inr s" by auto
  from String_init_frets [OF this assms(3)] show ?thesis .
qed

lemma attempt_bound:
  assumes "attempt k sc f fs = Inr r"
  shows "fs < 23"
proof -
  from assms obtain ss low sn cands first where
    ss: "strings = Inr ss" and low: "getitem ss 5 = Inr low"
    and cands: "get_notes low sn = Inr cands"
    and first: "next_match (\<lambda>note. fret note \<ge> fs) cands = Inr first"
    by (auto simp: attempt_def split: sum.splits)
  from next_match_Inr [OF first] have "first \<in> set cands" and ge: "fs \<le> fret first" by auto
  with filter_raising_subset [OF cands [unfolded get_notes_def]]
  have "first \<in> set (String.notes low)" by auto
  from strings_frets [OF ss getitem_mem [OF low] this] ge show ?thesis by simp
qed

text \<open>
  \<^verbatim>\<open>calculate_form\<close>: an attempt that raises ends the call with that exception; an attempt
  whose notes do not contain every root (line 251) is retried from \<open>form_start + 1\<close>; any
  other attempt is returned as a \<^verbatim>\<open>Form\<close>. The recursion limit of the Python interpreter
  is not modelled: from a starting fret of 0 or more a call nests at most 24 deep, and what is
  stated about the outcome of the retries is stated for such starting frets.
\<close>

function calculate_form ::
  "string \<Rightarrow> scale_class \<Rightarrow> string \<Rightarrow> int \<Rightarrow> bool \<Rightarrow> error + Form" where
  "calculate_form key' scale' form form_start transpose' =
     (case attempt key' scale' form form_start of
        Inl e \<Rightarrow> Inl e
      | Inr (roots, notes_list) \<Rightarrow>
          if \<not> issubset roots notes_list
          then calculate_form key' scale' form (form_start + 1) transpose'
          else Form_init notes_list (Some key') (Some (class_name scale')) form transpose')"
  by pat_completeness auto
termination
  by (relation "measure (\<lambda>(key', scale', form, form_start, transpose'). nat (23 - form_start))")
     (auto dest: attempt_bound)

declare calculate_form.simps [simp del]

text \<open>
  The same recursion with a bound on the number of nested calls: \<open>None\<close> when the bound is
  used up before a call returns.
\<close>

fun calculate_form_bounded ::
  "nat \<Rightarrow> string \<Rightarrow> scale_class \<Rightarrow> string \<Rightarrow> int \<Rightarrow> bool \<Rightarrow> (error + Form) option" where
  "calculate_form_bounded 0 key' scale' form form_start transpose' = None"
| "calculate_form_bounded (Suc depth) key' scale' form form_start transpose' =
     (case attempt key' scale' form form_start of
        Inl e \<Rightarrow> Some (Inl e)
      | Inr (roots, notes_list) \<Rightarrow>
          if \<not> issubset roots notes_list
          then calculate_form_bounded depth key' scale' form (form_start + 1) transpose'
          else Some (Form_init notes_list (Some key') (Some (class_name scale')) form
                       transpose'))"

text \<open>The outcome of one attempt as line 251 reads it.\<close>

definition rejected :: "error + Note list \<times> Note list \<Rightarrow> bool" where
  "rejected r = (case r of Inl e \<Rightarrow> False | Inr (roots, notes_list) \<Rightarrow> \<not> issubset roots notes_list)"

lemma calculate_form_retry:
  "rejected (attempt k sc f fs) \<Longrightarrow> calculate_form k sc f fs t = calculate_form k sc f (fs + 1) t"
  by (subst calculate_form.simps) (auto simp: rejected_def split: sum.splits)

lemma calculate_form_raises:
  "attempt k sc f fs = Inl e \<Longrightarrow> calculate_form k sc f fs t = Inl e"
  by (subst calculate_form.simps) simp

lemma calculate_form_accepts:
  "attempt k sc f fs = Inr (roots, notes_list) \<Longrightarrow> issubset roots notes_list \<Longrightarrow>
   calculate_form k sc f fs t = Form_init notes_list (Some k) (Some (class_name sc)) f t"
  by (subst calculate_form.simps) simp

subsection \<open>Notions used in the statements\<close>

text \<open>
  A note is \<open>plain\<close> when its string index is a single decimal digit and its name does
  not begin with a digit. Every note of the six strings is plain.
\<close>

definition is_digit :: "char \<Rightarrow> bool" where
  "is_digit c = (c \<in> set ''0123456789'')"

definition starts_with_digit :: "string \<Rightarrow> bool" where
  "starts_with_digit s = (case s of [] \<Rightarrow> False | c # cs \<Rightarrow> is_digit c)"

definition plain :: "Note \<Rightarrow> bool" where
  "plain n = (0 \<le> string n \<and> string n \<le> 9 \<and> \<not> starts_with_digit (name n))"

text \<open>
  The search of line 216 for the first root raises \<^verbatim>\<open>StopIteration\<close>: the first anchor
  string of the form has no note of the key at or above \<open>form_start\<close>.
\<close>

definition roots_exhausted :: "string \<Rightarrow> string \<Rightarrow> int \<Rightarrow> bool" where
  "roots_exhausted key' form form_start =
     (case strings of
        Inl e \<Rightarrow> False
      | Inr strings' \<Rightarrow> find_roots strings' key' form form_start = Inl StopIteration)"


text \<open>
  The notes that \<^verbatim>\<open>test_d_locrian\<close> of \<^verbatim>\<open>tests/test_guitar.py\<close> expects, in the order
  in which \<^verbatim>\<open>match_scale\<close> builds them: string 6 first, frets ascending.
\<close>

definition d_locrian :: "Note list" where
  "d_locrian =
     map (\<lambda>(string', fret', name'). Note_init string' fret' name' None)
       [(6, 6, ''A#''), (6, 8, ''C''), (6, 9, ''C#''),
        (5, 6, ''D#''), (5, 8, ''F''),
        (4, 5, ''G''), (4, 6, ''G#''), (4, 8, ''A#''),
        (3, 5, ''C''), (3, 6, ''C#''), (3, 8, ''D#''),
        (2, 6, ''F''), (2, 8, ''G''), (2, 9, ''G#''),
        (1, 6, ''A#''), (1, 8, ''C''), (1, 9, ''C#'')]"

section \<open>Auxiliary lemmas\<close>

subsection \<open>Decimal rendering\<close>

lemma lt_10_cases: "(n::nat) < 10 \<Longrightarrow> n \<in> {0, 1, 2, 3, 4, 5, 6, 7, 8, 9}"
  by (simp; presburger)

lemma of_char_digit_char: "a < 10 \<Longrightarrow> (of_char (digit_char a) :: nat) = 48 + a"
  by (drule lt_10_cases) (auto simp: digit_char_def)

lemma digit_char_inj:
  assumes "a < 10" and "b < 10" and "digit_char a = digit_char b"
  shows "a = b"
proof -
  have "(of_char (digit_char a) :: nat) = of_char (digit_char b)"
    using assms(3) by (rule arg_cong)
  then have "48 + a = 48 + b"
    by (simp only: of_char_digit_char [OF assms(1)] of_char_digit_char [OF assms(2)])
  then show ?thesis by simp
qed

lemma digit_char_is_digit: "a < 10 \<Longrightarrow> is_digit (digit_char a)"
  by (drule lt_10_cases) (auto simp: digit_char_def is_digit_def)

lemma str_nat_digits: "list_all is_digit (str_nat n)"
proof (induction n rule: str_nat.induct)
  case (1 n)
  show ?case
  proof (cases "n < 10")
    case True
    then show ?thesis by (subst str_nat.simps) (simp add: digit_char_is_digit)
  next
    case False
    with 1 show ?thesis by (subst str_nat.simps) (simp add: digit_char_is_digit)
  qed
qed

lemma str_nat_not_Nil: "str_nat n \<noteq> []"
  by (subst str_nat.simps) simp

lemma str_nat_inj: "str_nat m = str_nat n \<Longrightarrow> m = n"
proof (induction m arbitrary: n rule: str_nat.induct)
  case (1 m)
  show ?case
  proof (cases "m < 10")
    case m: True
    show ?thesis
    proof (cases "n < 10")
      case True
      with m 1(2) show ?thesis
        by (subst (asm) str_nat.simps, subst (asm) (2) str_nat.simps) (simp add: digit_char_inj)
    next
      case False
      with m 1(2) str_nat_not_Nil [of "n div 10"] show ?thesis
        by (subst (asm) str_nat.simps, subst (asm) (2) str_nat.simps) simp
    qed
  next
    case m: False
    show ?thesis
    proof (cases "n < 10")
      case True
      with m 1(2) str_nat_not_Nil [of "m div 10"] show ?thesis
        by (subst (asm) str_nat.simps, subst (asm) (2) str_nat.simps) simp
    next
      case False
      with m 1(2) have "str_nat (m div 10) = str_nat (n div 10)"
        and "digit_char (m mod 10) = digit_char (n mod 10)"
        by (subst (asm) str_nat.simps, subst (asm) (2) str_nat.simps, simp)+
      with 1(1) [OF m] have "m div 10 = n div 10" by simp
      moreover have "m mod 10 = n mod 10"
        by (rule digit_char_inj) (use \<open>digit_char (m mod 10) = digit_char (n mod 10)\<close> in simp_all)
      ultimately have "m div 10 = n div 10" and "m mod 10 = n mod 10" by simp_all
      then show ?thesis by (metis div_mult_mod_eq)
    qed
  qed
qed

lemma takeWhile_digits:
  "list_all is_digit ds \<Longrightarrow> \<not> starts_with_digit xs \<Longrightarrow> takeWhile is_digit (ds @ xs) = ds"
  by (induction ds) (auto simp: starts_with_digit_def split: list.splits)

lemma str_nat_append_inj:
  assumes "str_nat m @ xs = str_nat n @ ys"
    and "\<not> starts_with_digit xs" and "\<not> starts_with_digit ys"
  shows "m = n \<and> xs = ys"
proof -
  have "takeWhile is_digit (str_nat m @ xs) = str_nat m"
    and "takeWhile is_digit (str_nat n @ ys) = str_nat n"
    using assms(2,3) by (simp_all add: takeWhile_digits str_nat_digits)
  with assms(1) have "str_nat m = str_nat n" by simp
  with assms(1) show ?thesis by (simp add: str_nat_inj)
qed

lemma str_single_digit: "0 \<le> i \<Longrightarrow> i \<le> 9 \<Longrightarrow> str i = [digit_char (nat i)]"
  by (simp add: str_def str_nat.simps)

lemma str_nat_hd: "\<exists>c cs. str_nat n = c # cs \<and> is_digit c"
  using str_nat_digits [of n] str_nat_not_Nil [of n] by (cases "str_nat n") simp_all

lemma minus_no_digit: "\<not> is_digit (CHR ''-'')"
  by (simp add: is_digit_def)

lemma str_append_inj:
  assumes "str i @ xs = str j @ ys"
    and "\<not> starts_with_digit xs" and "\<not> starts_with_digit ys"
  shows "i = j \<and> xs = ys"
proof (cases "i < 0")
  case i: True
  show ?thesis
  proof (cases "j < 0")
    case True
    with i assms(1) have "str_nat (nat (- i)) @ xs = str_nat (nat (- j)) @ ys"
      by (simp add: str_def)
    from str_nat_append_inj [OF this assms(2,3)] i True show ?thesis by auto
  next
    case False
    obtain c cs where "str_nat (nat j) = c # cs" and "is_digit c"
      using str_nat_hd by blast
    with i False assms(1) minus_no_digit show ?thesis by (simp add: str_def)
  qed
next
  case i: False
  show ?thesis
  proof (cases "j < 0")
    case True
    obtain c cs where "str_nat (nat i) = c # cs" and "is_digit c"
      using str_nat_hd by blast
    with i True assms(1) minus_no_digit show ?thesis by (simp add: str_def)
  next
    case False
    with i assms(1) have "str_nat (nat i) @ xs = str_nat (nat j) @ ys"
      by (simp add: str_def)
    from str_nat_append_inj [OF this assms(2,3)] i False show ?thesis by auto
  qed
qed

lemma Note_hash_inj:
  assumes "plain a" and "plain b" and "Note_hash a = Note_hash b"
  shows "string a = string b \<and> fret a = fret b \<and> name a = name b"
proof -
  from assms have eq: "digit_char (nat (string a)) # str (fret a) @ name a
      = digit_char (nat (string b)) # str (fret b) @ name b"
    by (simp add: Note_hash_def plain_def str_single_digit)
  then have "digit_char (nat (string a)) = digit_char (nat (string b))"
    and rest: "str (fret a) @ name a = str (fret b) @ name b"
    by simp_all
  have "nat (string a) = nat (string b)"
    by (rule digit_char_inj) (use assms(1,2) \<open>digit_char (nat (string a)) = digit_char (nat (string b))\<close> in \<open>auto simp: plain_def\<close>)
  with assms(1,2) have "string a = string b"
    by (auto simp: plain_def)
  moreover from str_append_inj [OF rest] assms(1,2)
  have "fret a = fret b \<and> name a = name b" by (auto simp: plain_def)
  ultimately show ?thesis by simp
qed

subsection \<open>The notes of a string\<close>

lemma map_raising_nth:
  "map_raising f xs = Inr ys \<Longrightarrow>
   length ys = length xs \<and> (\<forall>k < length xs. f (xs ! k) = Inr (ys ! k))"
proof (induction xs arbitrary: ys)
  case Nil
  then show ?case by simp
next
  case (Cons x xs)
  then obtain y ys' where y: "f x = Inr y" and ys': "map_raising f xs = Inr ys'"
    and ys: "ys = y # ys'"
    by (auto split: sum.splits)
  from Cons.IH [OF ys'] y ys show ?case
    by (auto simp: nth_Cons')
qed

lemma String_init_notes:
  assumes "String_init i t = Inr s"
  shows "length (String.notes s) = 23"
    and "k < 23 \<Longrightarrow> \<exists>nm. get_note_name t (int k) = Inr nm \<and>
           String.notes s ! k = Note_init i (int k) nm None"
proof -
  define f where "f = (\<lambda>fret'. case get_note_name t fret' of Inl e \<Rightarrow> Inl e
            | Inr n \<Rightarrow> Inr (Note_init i fret' n None))"
  from assms obtain ns where
    ns: "map_raising f (map int [0..<23]) = Inr ns"
    and s: "s = \<lparr>index = i, tuning = t, notes = ns\<rparr>"
    by (auto simp: String_init_def FRETS_def f_def split: sum.splits if_splits)
  from map_raising_nth [OF ns] have len: "length ns = 23"
    and all: "\<And>k. k < 23 \<Longrightarrow> f (int k) = Inr (ns ! k)"
    by simp_all
  from len s show "length (String.notes s) = 23" by simp
  assume k: "k < 23"
  from all [OF k] s
  show "\<exists>nm. get_note_name t (int k) = Inr nm \<and> String.notes s ! k = Note_init i (int k) nm None"
    by (auto simp: f_def split: sum.splits)
qed

lemma String_init_low_E: "String_init 6 ''E'' = Inr (projr (String_init 6 ''E''))"
  by code_simp

lemma lt_12_cases: "(n::nat) < 12 \<Longrightarrow> n \<in> {0, 1, 2, 3, 4, 5, 6, 7, 8, 9, 10, 11}"
  by (simp; presburger)

lemma int_to_note_no_digit:
  assumes "int_to_note x = Inr nm"
  shows "\<not> starts_with_digit nm"
proof -
  from assms have x: "0 \<le> x" "x < 12"
    and nm: "nm = [''C'', ''C#'', ''D'', ''D#'', ''E'', ''F'', ''F#'', ''G'', ''G#'', ''A'', ''A#'',
                 ''B''] ! nat x"
    by (auto simp: int_to_note_def split: if_splits)
  from x have "nat x < 12" by simp
  then have "nat x \<in> {0, 1, 2, 3, 4, 5, 6, 7, 8, 9, 10, 11}" by (rule lt_12_cases)
  with nm show ?thesis
    by (auto simp: starts_with_digit_def is_digit_def)
qed

lemma get_note_name_no_digit: "get_note_name t f = Inr nm \<Longrightarrow> \<not> starts_with_digit nm"
  by (auto simp: get_note_name_def split: sum.splits dest: int_to_note_no_digit)

lemma str_nat_short:
  assumes "k < 100"
  shows "length (str_nat k) \<le> 2"
proof (cases "k < 10")
  case True
  then show ?thesis by (simp add: str_nat.simps)
next
  case False
  from assms have "k div 10 < 10" by simp
  then have "str_nat (k div 10) = [digit_char (k div 10)]"
    by (simp add: str_nat.simps)
  with False show ?thesis
    by (subst str_nat.simps) simp
qed

lemma takeWhile_digits_append:
  "list_all is_digit ds \<Longrightarrow> takeWhile is_digit (ds @ xs) = ds @ takeWhile is_digit xs"
  by (induction ds) auto

lemma hash_fret_23:
  assumes "k < 23" and "\<not> starts_with_digit nm"
  shows "Note_hash (Note_init i 23 x e) \<noteq> Note_hash (Note_init i (int k) nm e')"
proof
  assume "Note_hash (Note_init i 23 x e) = Note_hash (Note_init i (int k) nm e')"
  then have eq: "str_nat 23 @ x = str_nat k @ nm"
    by (simp add: Note_hash_def Note_init_def str_def)
  have "takeWhile is_digit (str_nat 23 @ x) = str_nat 23 @ takeWhile is_digit x"
    by (rule takeWhile_digits_append) (rule str_nat_digits)
  moreover have "takeWhile is_digit (str_nat k @ nm) = str_nat k"
    using assms(2) by (simp add: takeWhile_digits str_nat_digits)
  ultimately have k: "str_nat k = str_nat 23 @ takeWhile is_digit x"
    using eq by simp
  have "length (str_nat 23) = 2" by (simp add: str_nat.simps)
  moreover from assms(1) have "length (str_nat k) \<le> 2" by (simp add: str_nat_short)
  ultimately have "takeWhile is_digit x = []" using k by simp
  with k have "str_nat k = str_nat 23" by simp
  then have "k = 23" by (rule str_nat_inj)
  with assms(1) show False by simp
qed

subsection \<open>Retries\<close>



text \<open>
  On a known form letter and a valid key the search for the first root is exhausted from
  fret 23 on, whatever the scale: the anchor strings end at fret 22.
\<close>

lemma strings_value: "strings = Inr (projr strings)"
  by code_simp

lemma strings_length: "length (projr strings) = 6"
  by code_simp

lemma strings_names:
  "list_all (\<lambda>s. list_all (\<lambda>n. \<not> isl (note_to_int (name n))) (String.notes s)) (projr strings)"
  by code_simp

lemma filter_raising_total:
  "list_all (\<lambda>x. \<not> isl (p x)) xs \<Longrightarrow> \<not> isl (filter_raising p xs)"
  by (induction xs) (auto split: sum.splits)

lemma next_match_none:
  assumes "list_all (\<lambda>x. \<not> p x) xs"
  shows "next_match p xs = Inl StopIteration"
proof -
  from assms have "List.find p xs = None"
    by (simp add: find_None_iff list_all_iff)
  then show ?thesis by (simp add: next_match_def)
qed

lemma String_getitem_valid:
  assumes "s \<in> set (projr strings)" and "note_to_int k = Inr pc"
  shows "\<not> isl (String_getitem s k)"
proof -
  from strings_names assms(1)
  have "list_all (\<lambda>n. \<not> isl (note_to_int (name n))) (String.notes s)"
    by (simp add: list_all_iff)
  then have "list_all (\<lambda>n. \<not> isl (Note_is_enharmonic n k)) (String.notes s)"
    using assms(2)
    by (auto simp: list_all_iff Note_is_enharmonic_def is_enharmonic_def split: sum.splits)
  then show ?thesis
    unfolding String_getitem_def by (rule filter_raising_total)
qed

lemma first_anchor:
  assumes "form \<in> set [''C'', ''A'', ''G'', ''E'', ''D'']"
  shows "\<exists>anchor anchors. map_of (root_forms (projr strings)) form = Some (anchor # anchors)
           \<and> anchor \<in> set (projr strings)"
proof -
  have "projr strings ! j \<in> set (projr strings)" if "j < 6" for j
    using that strings_length by simp
  then show ?thesis using assms
    by (auto simp: root_forms_def)
qed

lemma roots_exhausted_beyond_fretboard:
  assumes "form \<in> set [''C'', ''A'', ''G'', ''E'', ''D'']"
    and "note_to_int k = Inr pc" and "23 \<le> m"
  shows "roots_exhausted k form m"
proof -
  from first_anchor [OF assms(1)] obtain anchor anchors where
    table: "map_of (root_forms (projr strings)) form = Some (anchor # anchors)"
    and anchor: "anchor \<in> set (projr strings)"
    by blast
  from String_getitem_valid [OF anchor assms(2)] obtain same where
    same: "String_getitem anchor k = Inr same"
    by (cases "String_getitem anchor k") auto
  have "list_all (\<lambda>n. \<not> m \<le> fret n) same"
  proof -
    have "fret n < 23" if "n \<in> set same" for n
    proof -
      from filter_raising_subset [OF same [unfolded String_getitem_def]] that
      have "n \<in> set (String.notes anchor)" by auto
      from strings_frets [OF strings_value anchor this] show ?thesis by simp
    qed
    with assms(3) show ?thesis by (fastforce simp: list_all_iff)
  qed
  then have "next_match (\<lambda>n. m \<le> fret n) same = Inl StopIteration"
    by (rule next_match_none)
  with table same have "find_roots (projr strings) k form m = Inl StopIteration"
    by (simp add: find_roots_def)
  then show ?thesis
    unfolding roots_exhausted_def by (subst strings_value) simp
qed

text \<open>With \<^verbatim>\<open>transpose\<close> set no call returns a form.\<close>

lemma calculate_form_transpose_never_returns:
  "isl (calculate_form key' scale' form form_start True)"
proof (induction key' scale' form form_start "True" rule: calculate_form.induct)
  case (1 k sc f fs)
  show ?case
  proof (cases "attempt k sc f fs")
    case (Inl e)
    then show ?thesis by (simp add: calculate_form_raises)
  next
    case (Inr r)
    obtain roots nl where r: "r = (roots, nl)" by (cases r)
    show ?thesis
    proof (cases "issubset roots nl")
      case True
      with Inr r show ?thesis by (simp add: calculate_form_accepts Form_init_def)
    next
      case False
      with Inr r have "rejected (attempt k sc f fs)" by (simp add: rejected_def)
      from calculate_form_retry [OF this, of True] 1 [OF Inr r [symmetric] False]
      show ?thesis by simp
    qed
  qed
qed

subsection \<open>Evaluated attempts\<close>

text \<open>
  Key G, Locrian, form D: the attempts from the frets 0 to 4 are rejected, the attempt from
  fret 5 collects the notes of \<open>d_locrian\<close>, which contain both roots.
\<close>

lemma G_Locrian_D_0: "rejected (attempt ''G'' Locrian ''D'' 0)"
  by code_simp

lemma G_Locrian_D_1: "rejected (attempt ''G'' Locrian ''D'' 1)"
  by code_simp

lemma G_Locrian_D_2: "rejected (attempt ''G'' Locrian ''D'' 2)"
  by code_simp

lemma G_Locrian_D_3: "rejected (attempt ''G'' Locrian ''D'' 3)"
  by code_simp

lemma G_Locrian_D_4: "rejected (attempt ''G'' Locrian ''D'' 4)"
  by code_simp

lemma G_Locrian_D_5:
  "attempt ''G'' Locrian ''D'' 5 = Inr ([Note_init 4 5 ''G'' None, Note_init 2 8 ''G'' None], d_locrian)"
  by code_simp

lemma d_locrian_roots: "issubset [Note_init 4 5 ''G'' None, Note_init 2 8 ''G'' None] d_locrian"
  by code_simp

lemma G_Locrian_D:
  "calculate_form ''G'' Locrian ''D'' 0 t = Form_init d_locrian (Some ''G'') (Some ''Locrian'') ''D'' t"
proof -
  have "calculate_form ''G'' Locrian ''D'' 0 t = calculate_form ''G'' Locrian ''D'' 5 t"
    using calculate_form_retry [OF G_Locrian_D_0, of t] calculate_form_retry [OF G_Locrian_D_1, of t]
      calculate_form_retry [OF G_Locrian_D_2, of t] calculate_form_retry [OF G_Locrian_D_3, of t]
      calculate_form_retry [OF G_Locrian_D_4, of t]
    by simp
  also have "\<dots> = Form_init d_locrian (Some ''G'') (Some (class_name Locrian)) ''D'' t"
    by (rule calculate_form_accepts [OF G_Locrian_D_5 d_locrian_roots])
  finally show ?thesis by (simp add: Locrian_def)
qed















section \<open>Properties\<close>

subsection \<open>The union of two forms\<close>

text \<open>
  C1 (as amended). For every two forms A and B, \<^verbatim>\<open>A + B\<close> returns a form. When the keys
  are equal the result keeps the key, its scale is A's scale when the two scales are equal and
  \<^verbatim>\<open>None\<close> otherwise, and its form label is the concatenation of the two labels when
  A's own scale is present (neither \<^verbatim>\<open>None\<close> nor empty) and empty otherwise, whether or
  not the result retains a scale. When the keys differ the result has no key, no scale and an
  empty label.
\<close>

theorem Form_add_metadata:
  "Form_add A B =
     Inr \<lparr>notes = sorted_notes (union_notes (Lick.notes A) (Lick.notes B)),
          start = None, end = None,
          key = (if key A = key B then key A else None),
          scale = (if key A = key B \<and> scale A = scale B then scale A else None),
          forms = (if key A = key B \<and> truthy (scale A) then forms A @ forms B else [])\<rparr>"
  by (simp add: Form_add_def Form_init_def Let_def)

text \<open>
  Two forms in G, one Ionian with label C and one Locrian with label A: the scales differ, so
  the result has no scale, and yet its label is the concatenation \<^verbatim>\<open>CA\<close>.
\<close>

theorem Form_add_label_counterexample:
  "Form_add
     \<lparr>notes = [], start = None, end = None,
      key = Some ''G'', scale = Some ''Ionian'', forms = ''C''\<rparr>
     \<lparr>notes = [], start = None, end = None,
      key = Some ''G'', scale = Some ''Locrian'', forms = ''A''\<rparr>
   = Inr \<lparr>notes = [], start = None, end = None,
          key = Some ''G'', scale = None, forms = ''CA''\<rparr>"
  by (simp add: Form_add_def Form_init_def Let_def truthy_def sorted_notes_def union_notes_def
      set_of_notes_def)

subsection \<open>Equality and order of notes\<close>

text \<open>
  C4 (as amended). For every two plain notes a and b, a equals b if and only if their
  strings, frets and names are equal. For all notes, plain or not, the effect influences
  neither equality nor the hash.
\<close>

theorem Note_eq_triple:
  "(plain a \<and> plain b \<longrightarrow>
      (Note_eq a b \<longleftrightarrow> string a = string b \<and> fret a = fret b \<and> name a = name b)) \<and>
   Note_eq (c\<lparr>effect := e\<rparr>) (d\<lparr>effect := e'\<rparr>) = Note_eq c d \<and>
   Note_hash (c\<lparr>effect := e\<rparr>) = Note_hash c"
proof (intro conjI impI)
  assume p: "plain a \<and> plain b"
  show "Note_eq a b \<longleftrightarrow> string a = string b \<and> fret a = fret b \<and> name a = name b"
  proof
    assume "Note_eq a b"
    then have "Note_hash a = Note_hash b" by (simp add: Note_eq_def)
    with p show "string a = string b \<and> fret a = fret b \<and> name a = name b"
      by (intro Note_hash_inj) simp_all
  next
    assume "string a = string b \<and> fret a = fret b \<and> name a = name b"
    then show "Note_eq a b" by (simp add: Note_eq_def Note_hash_def)
  qed
next
  show "Note_eq (c\<lparr>effect := e\<rparr>) (d\<lparr>effect := e'\<rparr>) = Note_eq c d"
    by (simp add: Note_eq_def Note_hash_def)
next
  show "Note_hash (c\<lparr>effect := e\<rparr>) = Note_hash c"
    by (simp add: Note_hash_def)
qed

theorem Note_eq_triple_witness:
  "plain (Note_init 1 0 ''E'' None) \<and> plain (Note_init 1 0 ''E'' (Some ''bend'')) \<and>
   plain (Note_init 6 0 ''E'' None) \<and>
   Note_eq (Note_init 1 0 ''E'' None) (Note_init 1 0 ''E'' (Some ''bend'')) \<and>
   \<not> Note_eq (Note_init 1 0 ''E'' None) (Note_init 6 0 ''E'' None) \<and>
   Note_eq (Note_init 1 12 ''E'' (Some ''bend'')) (Note_init 11 2 ''E'' None)"
proof -
  have p: "plain (Note_init 1 0 ''E'' None)" "plain (Note_init 1 0 ''E'' (Some ''bend''))"
    "plain (Note_init 6 0 ''E'' None)"
    by (simp_all add: plain_def Note_init_def starts_with_digit_def is_digit_def)
  have collide: "Note_eq (Note_init 1 12 ''E'' None) (Note_init 11 2 ''E'' None)"
    by code_simp
  from Note_eq_triple [of "Note_init 1 0 ''E'' None" "Note_init 1 0 ''E'' (Some ''bend'')"] p
  have same: "Note_eq (Note_init 1 0 ''E'' None) (Note_init 1 0 ''E'' (Some ''bend''))"
    by (simp add: Note_init_def)
  from Note_eq_triple [of "Note_init 1 0 ''E'' None" "Note_init 6 0 ''E'' None"] p
  have other: "\<not> Note_eq (Note_init 1 0 ''E'' None) (Note_init 6 0 ''E'' None)"
    by (simp add: Note_init_def)
  from Note_eq_triple [where c = "Note_init 1 12 ''E'' None" and e = "Some ''bend''"
      and d = "Note_init 11 2 ''E'' None" and e' = None] collide
  have effect: "Note_eq (Note_init 1 12 ''E'' (Some ''bend'')) (Note_init 11 2 ''E'' None)"
    by (simp add: Note_init_def)
  from p same other effect show ?thesis by (intro conjI)
qed

text \<open>
  The hashed text has no separators: fret 12 on string 1 and fret 2 on string 11 both give
  \<^verbatim>\<open>112E\<close>, so two notes with distinct strings and frets are equal.
\<close>

theorem Note_eq_collision_counterexample:
  "Note_eq (Note_init 1 12 ''E'' None) (Note_init 11 2 ''E'' None) \<and>
   string (Note_init 1 12 ''E'' None) \<noteq> string (Note_init 11 2 ''E'' None) \<and>
   fret (Note_init 1 12 ''E'' None) \<noteq> fret (Note_init 11 2 ''E'' None)"
  by code_simp

text \<open>
  C5 (as amended). Equality of notes is reflexive, symmetric and transitive; no two notes
  are each less than the other; and two plain notes that are equal are not ordered either way.
\<close>

theorem Note_eq_equivalence_and_order:
  "Note_eq a a \<and>
   (Note_eq a b \<longrightarrow> Note_eq b a) \<and>
   (Note_eq a b \<and> Note_eq b c \<longrightarrow> Note_eq a c) \<and>
   \<not> (Note_lt a b \<and> Note_lt b a) \<and>
   (plain a \<and> plain b \<and> Note_eq a b \<longrightarrow> \<not> Note_lt a b \<and> \<not> Note_lt b a)"
proof -
  have "\<not> Note_lt a b \<and> \<not> Note_lt b a" if "plain a" "plain b" "Note_eq a b"
  proof -
    from that(3) have "Note_hash a = Note_hash b" by (simp add: Note_eq_def)
    from Note_hash_inj [OF that(1,2) this] show ?thesis by (simp add: Note_lt_def)
  qed
  moreover have "Note_eq a a" by (simp add: Note_eq_def)
  moreover have "Note_eq a b \<longrightarrow> Note_eq b a" by (auto simp: Note_eq_def)
  moreover have "Note_eq a b \<and> Note_eq b c \<longrightarrow> Note_eq a c" by (auto simp: Note_eq_def)
  moreover have "\<not> (Note_lt a b \<and> Note_lt b a)" by (auto simp: Note_lt_def)
  ultimately show ?thesis by blast
qed

theorem Note_eq_equivalence_and_order_witness:
  "plain (Note_init 1 0 ''E'' None) \<and>
   Note_eq (Note_init 1 0 ''E'' None) (Note_init 1 0 ''E'' None) \<and>
   \<not> Note_lt (Note_init 1 0 ''E'' None) (Note_init 1 0 ''E'' None) \<and>
   Note_lt (Note_init 6 0 ''E'' None) (Note_init 1 0 ''E'' None) \<and>
   \<not> Note_lt (Note_init 1 0 ''E'' None) (Note_init 6 0 ''E'' None)"
proof -
  have p: "plain (Note_init 1 0 ''E'' None)"
    by (simp add: plain_def Note_init_def starts_with_digit_def is_digit_def)
  have lt: "Note_lt (Note_init 6 0 ''E'' None) (Note_init 1 0 ''E'' None)"
    by (simp add: Note_lt_def Note_init_def)
  from Note_eq_equivalence_and_order
    [of "Note_init 1 0 ''E'' None" "Note_init 1 0 ''E'' None" "Note_init 1 0 ''E'' None"] p
  have "Note_eq (Note_init 1 0 ''E'' None) (Note_init 1 0 ''E'' None)"
    and "\<not> Note_lt (Note_init 1 0 ''E'' None) (Note_init 1 0 ''E'' None)"
    by blast+
  moreover from Note_eq_equivalence_and_order
    [of "Note_init 6 0 ''E'' None" "Note_init 1 0 ''E'' None" "Note_init 1 0 ''E'' None"] lt
  have "\<not> Note_lt (Note_init 1 0 ''E'' None) (Note_init 6 0 ''E'' None)"
    by blast
  ultimately show ?thesis using p lt by (intro conjI)
qed

text \<open>
  The note at fret 2 of string 11 and the note at fret 12 of string 1 are equal, and the first
  is less than the second.
\<close>

theorem Note_eq_ordered_counterexample:
  "Note_eq (Note_init 11 2 ''E'' None) (Note_init 1 12 ''E'' None) \<and>
   Note_lt (Note_init 11 2 ''E'' None) (Note_init 1 12 ''E'' None)"
  by code_simp

subsection \<open>Looking a fret up on a string\<close>

text \<open>
  C6 (as amended). On every string built by \<^verbatim>\<open>String(i, t)\<close>, looking up a fret from 0
  to 22 succeeds and returns the name of the note at that fret, and looking up a fret of 23 or
  more, or below -23, raises \<^verbatim>\<open>IndexError\<close>.
\<close>

theorem String_getitem_int_range:
  assumes "String_init i t = Inr s"
  shows "(0 \<le> f \<and> f \<le> 22 \<longrightarrow>
           (\<exists>nm. String_getitem_int s f = Inr nm \<and> get_note_name t f = Inr nm \<and>
                 String.notes s ! nat f = Note_init i f nm None)) \<and>
         (23 \<le> f \<or> f < - 23 \<longrightarrow> String_getitem_int s f = Inl IndexError)"
proof (intro conjI impI)
  assume f: "0 \<le> f \<and> f \<le> 22"
  then have "nat f < 23" by linarith
  from String_init_notes(2) [OF assms this] f obtain nm where
    "get_note_name t f = Inr nm" and "String.notes s ! nat f = Note_init i f nm None"
    by auto
  with f String_init_notes(1) [OF assms]
  show "\<exists>nm. String_getitem_int s f = Inr nm \<and> get_note_name t f = Inr nm \<and>
             String.notes s ! nat f = Note_init i f nm None"
    by (simp add: String_getitem_int_def getitem_def Note_init_def)
next
  assume "23 \<le> f \<or> f < - 23"
  with String_init_notes(1) [OF assms]
  show "String_getitem_int s f = Inl IndexError"
    by (auto simp: String_getitem_int_def getitem_def)
qed

theorem String_getitem_int_range_witness:
  "String_init 6 ''E'' = Inr (projr (String_init 6 ''E'')) \<and>
   String_getitem_int (projr (String_init 6 ''E'')) 3 = Inr ''G'' \<and>
   String_getitem_int (projr (String_init 6 ''E'')) 23 = Inl IndexError"
proof -
  have name: "get_note_name ''E'' 3 = Inr ''G''"
    by code_simp
  from String_getitem_int_range [OF String_init_low_E, of 3]
    String_getitem_int_range [OF String_init_low_E, of 23] name
  have "String_getitem_int (projr (String_init 6 ''E'')) 3 = Inr ''G''"
    and "String_getitem_int (projr (String_init 6 ''E'')) 23 = Inl IndexError"
    by simp_all
  with String_init_low_E show ?thesis by (intro conjI)
qed

text \<open>
  Fret -1 is outside the range 0 to 22, and the lookup does not fail: the index counts from
  the end of the tuple and the name at fret 22 is returned.
\<close>

theorem String_getitem_int_negative_counterexample:
  "(case String_init 6 ''E'' of Inl e \<Rightarrow> Inl e | Inr s \<Rightarrow> String_getitem_int s (- 1)) = Inr ''D''"
  by code_simp

subsection \<open>The octave partner\<close>

text \<open>
  C7. For every note n such that the frets of n, of its octave partner and of the partner's
  partner all lie in 0 to 22, the partner of the partner equals n; it is n with the effect
  dropped.
\<close>

theorem get_octave_involution:
  assumes "0 \<le> fret n \<and> fret n \<le> 22"
    and "0 \<le> fret (get_octave n) \<and> fret (get_octave n) \<le> 22"
    and "0 \<le> fret (get_octave (get_octave n)) \<and> fret (get_octave (get_octave n)) \<le> 22"
  shows "Note_eq (get_octave (get_octave n)) n \<and>
         get_octave (get_octave n) = n\<lparr>effect := None\<rparr>"
  using assms by (auto simp: get_octave_def Note_init_def Note_eq_def Note_hash_def Let_def)

theorem get_octave_involution_witness:
  "(0 \<le> fret (Note_init 6 3 ''G'' None) \<and> fret (Note_init 6 3 ''G'' None) \<le> 22)
   \<and> fret (get_octave (Note_init 6 3 ''G'' None)) = 15
   \<and> fret (get_octave (get_octave (Note_init 6 3 ''G'' None))) = 3
   \<and> Note_eq (get_octave (get_octave (Note_init 6 3 ''G'' None))) (Note_init 6 3 ''G'' None)"
  using get_octave_involution [of "Note_init 6 3 ''G'' None"]
  by (simp add: get_octave_def Note_init_def Let_def)

text \<open>
  C10. For every note at fret 11, the octave partner is at fret 23, on the same string with
  the same name. Fret 23 is outside 0 to 22; no note of the owning string is at that fret or
  equal to the partner, and looking fret 23 up on that string raises. \<^verbatim>\<open>get_octave\<close>
  checks no range: for every note it returns the note twelve frets away.
\<close>

theorem get_octave_out_of_range:
  assumes "fret n = 11" and "String_init (string n) t = Inr s"
  shows "fret (get_octave n) = 23 \<and> string (get_octave n) = string n \<and>
         name (get_octave n) = name n \<and>
         \<not> (0 \<le> fret (get_octave n) \<and> fret (get_octave n) \<le> 22) \<and>
         list_all (\<lambda>m. fret m \<noteq> fret (get_octave n)) (String.notes s) \<and>
         \<not> list_ex (Note_eq (get_octave n)) (String.notes s) \<and>
         String_getitem_int s (fret (get_octave n)) = Inl IndexError \<and>
         get_octave n' =
           Note_init (string n') (if 12 \<le> fret n' then fret n' - 12 else fret n' + 12)
             (name n') None"
proof -
  from assms(1) have oct: "get_octave n = Note_init (string n) 23 (name n) None"
    by (simp add: get_octave_def)
  have frets: "list_all (\<lambda>m. fret m \<noteq> 23) (String.notes s)"
    using String_init_frets [OF assms(2)] by (fastforce simp: list_all_iff)
  have absent: "\<not> list_ex (Note_eq (Note_init (string n) 23 (name n) None)) (String.notes s)"
  proof
    assume "list_ex (Note_eq (Note_init (string n) 23 (name n) None)) (String.notes s)"
    then obtain k where k: "k < length (String.notes s)"
      and eq: "Note_eq (Note_init (string n) 23 (name n) None) (String.notes s ! k)"
      by (auto simp: list_ex_iff in_set_conv_nth)
    from k String_init_notes(1) [OF assms(2)] have k23: "k < 23" by simp
    from String_init_notes(2) [OF assms(2) k23] obtain nm where
      nm: "get_note_name t (int k) = Inr nm"
      and nth_k: "String.notes s ! k = Note_init (string n) (int k) nm None"
      by blast
    from hash_fret_23 [OF k23 get_note_name_no_digit [OF nm]] eq nth_k
    show False by (simp add: Note_eq_def)
  qed
  have lookup: "String_getitem_int s 23 = Inl IndexError"
    using String_init_notes(1) [OF assms(2)]
    by (simp add: String_getitem_int_def getitem_def)
  have total: "get_octave n' =
      Note_init (string n') (if 12 \<le> fret n' then fret n' - 12 else fret n' + 12)
        (name n') None"
    by (simp add: get_octave_def)
  from oct frets absent lookup total show ?thesis
    by (simp add: Note_init_def)
qed

theorem get_octave_out_of_range_witness:
  "fret (Note_init 6 11 ''D#'' None) = 11 \<and>
   String_init 6 ''E'' = Inr (projr (String_init 6 ''E'')) \<and>
   fret (get_octave (Note_init 6 11 ''D#'' None)) = 23 \<and>
   \<not> list_ex (Note_eq (get_octave (Note_init 6 11 ''D#'' None)))
       (String.notes (projr (String_init 6 ''E'')))"
proof -
  have f: "fret (Note_init 6 11 ''D#'' None) = 11"
    by (simp add: Note_init_def)
  have s: "String_init (string (Note_init 6 11 ''D#'' None)) ''E''
             = Inr (projr (String_init 6 ''E''))"
    using String_init_low_E by (simp add: Note_init_def)
  from get_octave_out_of_range [OF f s]
  have "fret (get_octave (Note_init 6 11 ''D#'' None)) = 23"
    and "\<not> list_ex (Note_eq (get_octave (Note_init 6 11 ''D#'' None)))
           (String.notes (projr (String_init 6 ''E'')))"
    by blast+
  with f String_init_low_E show ?thesis by (intro conjI)
qed

subsection \<open>Termination of the retries\<close>

text \<open>
  C9. For every key, scale, form letter and starting fret, \<^verbatim>\<open>calculate_form\<close> returns
  within \<open>23 - form_start + 1\<close> nested calls (one call when \<open>form_start\<close> is above 23):
  with that bound the bounded recursion never runs out, and gives the result of
  \<^verbatim>\<open>calculate_form\<close>.
\<close>

theorem calculate_form_terminates:
  "calculate_form_bounded (nat (23 - form_start) + 1) key' scale' form form_start transpose'
   = Some (calculate_form key' scale' form form_start transpose')"
proof (induction key' scale' form form_start transpose' rule: calculate_form.induct)
  case (1 k sc f fs t)
  show ?case
  proof (cases "attempt k sc f fs")
    case (Inl e)
    then show ?thesis by (simp add: calculate_form_raises)
  next
    case (Inr r)
    obtain roots nl where r: "r = (roots, nl)" by (cases r)
    from attempt_bound [OF Inr] have "fs < 23" .
    then have fuel: "nat (23 - fs) = Suc (nat (23 - (fs + 1)))" by simp
    show ?thesis
    proof (cases "issubset roots nl")
      case True
      with Inr r show ?thesis by (simp add: calculate_form_accepts)
    next
      case False
      with Inr r have rej: "rejected (attempt k sc f fs)" by (simp add: rejected_def)
      from 1 [OF Inr r [symmetric] False]
      have "calculate_form_bounded (nat (23 - (fs + 1)) + 1) k sc f (fs + 1) t
            = Some (calculate_form k sc f (fs + 1) t)" .
      with Inr r False fuel calculate_form_retry [OF rej, of t] show ?thesis by simp
    qed
  qed
qed

subsection \<open>Synthesis of a form\<close>

text \<open>
  C8. \<^verbatim>\<open>calculate_form\<close> with key G, the Locrian scale, form D and starting fret 0 returns
  the form whose notes are \<open>d_locrian\<close>: frets 6, 8, 9 on the strings 6, 2 and 1, frets
  5, 6, 8 on the strings 4 and 3, frets 6, 8 on string 5, ordered by the order of notes
  (string 6 first, frets ascending).
\<close>

theorem calculate_form_d_locrian:
  "calculate_form ''G'' Locrian ''D'' 0 False =
     Inr \<lparr>notes = d_locrian, start = None, end = None,
          key = Some ''G'', scale = Some ''Locrian'', forms = ''D''\<rparr> \<and>
   map (\<lambda>note. (string note, fret note)) d_locrian =
     [(6, 6), (6, 8), (6, 9), (5, 6), (5, 8), (4, 5), (4, 6), (4, 8), (3, 5), (3, 6), (3, 8),
      (2, 6), (2, 8), (2, 9), (1, 6), (1, 8), (1, 9)] \<and>
   sorted_wrt Note_lt d_locrian"
proof (intro conjI)
  show "calculate_form ''G'' Locrian ''D'' 0 False =
     Inr \<lparr>notes = d_locrian, start = None, end = None,
          key = Some ''G'', scale = Some ''Locrian'', forms = ''D''\<rparr>"
    by (simp add: G_Locrian_D Form_init_def)
  show "map (\<lambda>note. (string note, fret note)) d_locrian =
     [(6, 6), (6, 8), (6, 9), (5, 6), (5, 8), (4, 5), (4, 6), (4, 8), (3, 5), (3, 6), (3, 8),
      (2, 6), (2, 8), (2, 9), (1, 6), (1, 8), (1, 9)]"
    by (simp add: d_locrian_def Note_init_def)
  show "sorted_wrt Note_lt d_locrian"
    by code_simp
qed

text \<open>
  C2. With \<^verbatim>\<open>transpose\<close> set, the same call does not return the shape with its octave
  copies: the constructor raises \<^verbatim>\<open>AttributeError\<close>.
\<close>

theorem calculate_form_transpose_raises:
  "calculate_form ''G'' Locrian ''D'' 0 True = Inl AttributeError"
  by (simp add: G_Locrian_D Form_init_def)




end
